theory Spec2Isabelle
  imports Main "HOL-Library.Log_Nat" "HOL-Library.Multiset"
begin

section \<open>Binary64 arithmetic\<close>

text \<open>
  Python's \<open>float\<close> is IEEE-754 binary64.  A finite float is modelled by the rational
  number it denotes, and every arithmetic operation rounds its exact result to the nearest
  binary64 value, ties to even (53 significant bits, gradual underflow below \<open>2^-1022\<close>).
  Infinities and NaN are not modelled: every quantity of the confidence model lies
  in \<open>[0, 2]\<close>.
\<close>

definition round_half_even :: "rat \<Rightarrow> int" where
  "round_half_even x =
     (let f = \<lfloor>x\<rfloor>; d = x - of_int f
      in if d < 1 / 2 then f
         else if 1 / 2 < d then f + 1
         else if even f then f else f + 1)"

definition pow2 :: "int \<Rightarrow> rat" where
  "pow2 e = (if 0 \<le> e then 2 ^ nat e else 1 / 2 ^ nat (- e))"

definition ilog2 :: "rat \<Rightarrow> int" where
  \<comment> \<open>\<open>\<lfloor>log\<^sub>2 x\<rfloor>\<close> for \<open>x > 0\<close>\<close>
  "ilog2 x = (if 1 \<le> x then bitlen \<lfloor>x\<rfloor> - 1 else - bitlen (\<lceil>1 / x\<rceil> - 1))"

definition b64 :: "rat \<Rightarrow> rat" where
  "b64 x =
     (if x = 0 then 0
      else let e = max (ilog2 \<bar>x\<bar>) (- 1022); q = pow2 (e - 52)
           in of_int (round_half_even (x / q)) * q)"

definition fadd :: "rat \<Rightarrow> rat \<Rightarrow> rat" where
  "fadd x y = b64 (x + y)"

definition fsub :: "rat \<Rightarrow> rat \<Rightarrow> rat" where
  "fsub x y = b64 (x - y)"

definition fmul :: "rat \<Rightarrow> rat \<Rightarrow> rat" where
  "fmul x y = b64 (x * y)"

definition float_of_int :: "int \<Rightarrow> rat" where
  \<comment> \<open>the conversion Python applies to the \<open>int\<close> operand of \<open>int * float\<close>\<close>
  "float_of_int n = b64 (of_int n)"

section \<open>Confidence model\<close>

text \<open>The constants of \<open>memory_lib.py\<close>: each literal is the binary64 nearest to it.\<close>

definition CONFIDENCE_BASE :: rat where "CONFIDENCE_BASE = b64 (5 / 10)"
definition CORRECTION_DELTA :: rat where "CORRECTION_DELTA = b64 (2 / 10)"
definition REINFORCE_DELTA :: rat where "REINFORCE_DELTA = b64 (1 / 10)"
definition CONTRADICTION_RESET :: rat where "CONTRADICTION_RESET = b64 (3 / 10)"
definition SINGLE_SESSION_CEILING :: rat where "SINGLE_SESSION_CEILING = b64 (7 / 10)"
definition SESSION_BONUS_PER :: rat where "SESSION_BONUS_PER = b64 (5 / 100)"
definition SESSION_BONUS_CAP :: rat where "SESSION_BONUS_CAP = b64 (2 / 10)"
definition CONFIDENCE_CAP :: rat where "CONFIDENCE_CAP = b64 1"

definition effective_confidence :: "rat \<Rightarrow> int \<Rightarrow> rat" where
  "effective_confidence raw distinct_sessions =
     (if distinct_sessions \<le> 1 then min raw SINGLE_SESSION_CEILING
      else let session_bonus =
                 min (fmul (float_of_int (distinct_sessions - 1)) SESSION_BONUS_PER)
                     SESSION_BONUS_CAP
           in min (fadd raw session_bonus) CONFIDENCE_CAP)"

section \<open>Text normalisation and hashing\<close>

text \<open>
  A Python \<open>str\<close> that the code inspects is a list of Unicode code points.  \<open>is_space\<close> is
  the set of code points that \<open>str.strip()\<close> removes and that \<open>\s\<close> matches in a \<open>str\<close>
  pattern (those with \<open>str.isspace()\<close>).
\<close>

type_synonym ustr = "nat list"

definition is_space :: "nat \<Rightarrow> bool" where
  "is_space c =
     (c \<in> set [9, 10, 11, 12, 13, 28, 29, 30, 31, 32, 133, 160, 5760,
                8192, 8193, 8194, 8195, 8196, 8197, 8198, 8199, 8200, 8201, 8202,
                8232, 8233, 8239, 8287, 12288])"

definition strip :: "ustr \<Rightarrow> ustr" where
  "strip s = rev (dropWhile is_space (rev (dropWhile is_space s)))"

function collapse_ws :: "ustr \<Rightarrow> ustr" where
  "collapse_ws [] = []"
| "collapse_ws (c # cs) =
     (if is_space c then 32 # collapse_ws (dropWhile is_space cs)
      else c # collapse_ws cs)"
  by pat_completeness auto
termination
  by (relation "measure length") (auto simp: length_dropWhile_le less_Suc_eq_le)

text \<open>
  Two functions of the Python runtime are parameters of the operations, held in one
  record: \<open>str.lower()\<close>, which follows the case tables of the Unicode database, and
  \<open>hashlib.sha256(s.encode()).hexdigest()\<close>.  Texts are taken to be encodable as UTF-8
  (no lone surrogate code points), so that the digest is defined on them.
\<close>

record pylib =
  str_lower :: "ustr \<Rightarrow> ustr"
  sha256_hex :: "ustr \<Rightarrow> string"

definition normalize_error :: "pylib \<Rightarrow> ustr \<Rightarrow> ustr" where
  "normalize_error lib error_text = collapse_ws (str_lower lib (strip error_text))"

definition error_hash :: "pylib \<Rightarrow> ustr \<Rightarrow> string" where
  "error_hash lib error_text = sha256_hex lib (normalize_error lib error_text)"

section \<open>The store\<close>

text \<open>
  One record per table row, columns as in the INSERT statements of \<open>memory_lib.py\<close>.
  A text that the code only stores or compares for equality is a \<open>string\<close>.
  Tables are lists in rowid order; the fields of the store carry the suffix \<open>_t\<close>.
  Timestamps are the strings \<open>_now()\<close> produces; the clock is the parameter \<open>now\<close>
  of every operation that reads it.
\<close>

record fix_row =
  f_id :: int
  f_error_hash :: string
  f_error_text :: ustr
  f_root_cause :: string
  f_fix :: string
  f_resource :: "string option"
  f_provider :: "string option"
  f_validated :: int
  f_scope :: string
  f_created_at :: string
  f_updated_at :: string
  f_hit_count :: int
  f_session_id :: "string option"

record conv_row =
  c_id :: int
  c_category :: string
  c_pattern :: string
  c_example :: "string option"
  c_source :: string
  c_scope :: string
  c_created_at :: string
  c_updated_at :: string
  c_confidence :: rat
  c_session_id :: "string option"
  c_distinct_sessions :: int

record quirk_row =
  q_id :: int
  q_service :: string
  q_description :: string
  q_region :: "string option"
  q_workaround :: "string option"
  q_scope :: string
  q_created_at :: string
  q_updated_at :: string
  q_session_id :: "string option"

record store =
  fixes_t :: "fix_row list"
  conventions_t :: "conv_row list"
  quirks_t :: "quirk_row list"
  sessions_t :: "string list"
  metadata_t :: "(string \<times> string) list"

datatype error = IntegrityError | ValueError | OperationalError | OSError

text \<open>
  Modelled from the spec: \<open>memory/schema.sql\<close> is not among the sources.  Section 6 of the
  spec gives its constraints: \<open>scope\<close> is checked to be one of personal, team, org;
  \<open>session_id\<close> is a nullable foreign key into \<open>sessions\<close> (enforced, since \<open>connect\<close> turns
  \<open>foreign_keys\<close> on); \<open>hit_count\<close> defaults to 1 and the timestamps to the current time;
  ids are assigned increasingly; a fresh schema holds no rows and the \<open>schema_version\<close>
  marker.
\<close>

definition scope_check :: "string \<Rightarrow> bool" where
  "scope_check s = (s = ''personal'' \<or> s = ''team'' \<or> s = ''org'')"

definition fk_check :: "store \<Rightarrow> string option \<Rightarrow> bool" where
  "fk_check st sid = (case sid of None \<Rightarrow> True | Some x \<Rightarrow> x \<in> set (sessions_t st))"

definition next_id :: "int list \<Rightarrow> int" where
  "next_id ids = fold max ids 0 + 1"

definition init_schema :: store where
  "init_schema =
     \<lparr>fixes_t = [], conventions_t = [], quirks_t = [], sessions_t = [],
      metadata_t = [(''schema_version'', ''2'')]\<rparr>"

text \<open>Truth value of an \<open>Optional[str]\<close> argument: \<open>None\<close> and the empty string are false.\<close>

definition truthy :: "string option \<Rightarrow> bool" where
  "truthy x = (case x of None \<Rightarrow> False | Some s \<Rightarrow> s \<noteq> [])"

section \<open>Write operations\<close>

definition record_fix ::
  "pylib \<Rightarrow> string \<Rightarrow> store \<Rightarrow> ustr \<Rightarrow> string \<Rightarrow> string \<Rightarrow>
   string option \<Rightarrow> string option \<Rightarrow> int \<Rightarrow> string \<Rightarrow> string option \<Rightarrow> error + (store \<times> int)"
where
  "record_fix lib now st error_text root_cause fx resource provider validated scope session_id =
     (let eh = error_hash lib error_text
      in case find (\<lambda>r. f_error_hash r = eh) (fixes_t st) of
           Some existing \<Rightarrow>
             let row_id = f_id existing
             in Inr (st\<lparr>fixes_t :=
                        map (\<lambda>r. if f_id r = row_id
                                 then r\<lparr>f_hit_count := f_hit_count existing + 1,
                                        f_updated_at := now\<rparr>
                                 else r) (fixes_t st)\<rparr>,
                     row_id)
         | None \<Rightarrow>
             if \<not> scope_check scope \<or> \<not> fk_check st session_id then Inl IntegrityError
             else let row_id = next_id (map f_id (fixes_t st))
                  in Inr (st\<lparr>fixes_t := fixes_t st @
                            [\<lparr>f_id = row_id, f_error_hash = eh, f_error_text = error_text,
                              f_root_cause = root_cause, f_fix = fx, f_resource = resource,
                              f_provider = provider, f_validated = validated, f_scope = scope,
                              f_created_at = now, f_updated_at = now, f_hit_count = 1,
                              f_session_id = session_id\<rparr>]\<rparr>,
                          row_id))"

definition record_convention ::
  "string \<Rightarrow> store \<Rightarrow> string \<Rightarrow> string \<Rightarrow> string option \<Rightarrow> string \<Rightarrow> string \<Rightarrow>
   string option \<Rightarrow> error + (store \<times> int)"
where
  "record_convention now st category pattern example source scope session_id =
     (case find (\<lambda>r. c_category r = category \<and> c_pattern r = pattern) (conventions_t st) of
        Some existing \<Rightarrow>
          let row_id = c_id existing;
              new_confidence = min (fadd (c_confidence existing) CORRECTION_DELTA) CONFIDENCE_CAP;
              new_distinct =
                (if truthy session_id \<and> session_id \<noteq> c_session_id existing
                 then c_distinct_sessions existing + 1 else c_distinct_sessions existing)
          in if \<not> fk_check st session_id then Inl IntegrityError
             else Inr (st\<lparr>conventions_t :=
                          map (\<lambda>r. if c_id r = row_id
                                   then r\<lparr>c_confidence := new_confidence,
                                          c_distinct_sessions := new_distinct,
                                          c_session_id := session_id,
                                          c_updated_at := now\<rparr>
                                   else r) (conventions_t st)\<rparr>,
                       row_id)
      | None \<Rightarrow>
          if \<not> scope_check scope \<or> \<not> fk_check st session_id then Inl IntegrityError
          else let row_id = next_id (map c_id (conventions_t st))
               in Inr (st\<lparr>conventions_t := conventions_t st @
                         [\<lparr>c_id = row_id, c_category = category, c_pattern = pattern,
                           c_example = example, c_source = source, c_scope = scope,
                           c_created_at = now, c_updated_at = now,
                           c_confidence = CONFIDENCE_BASE, c_session_id = session_id,
                           c_distinct_sessions = 1\<rparr>]\<rparr>,
                       row_id))"

definition record_quirk ::
  "string \<Rightarrow> store \<Rightarrow> string \<Rightarrow> string \<Rightarrow> string option \<Rightarrow> string option \<Rightarrow> string \<Rightarrow>
   string option \<Rightarrow> error + (store \<times> int)"
where
  "record_quirk now st service description region workaround scope session_id =
     (if \<not> scope_check scope \<or> \<not> fk_check st session_id then Inl IntegrityError
      else let row_id = next_id (map q_id (quirks_t st))
           in Inr (st\<lparr>quirks_t := quirks_t st @
                     [\<lparr>q_id = row_id, q_service = service, q_description = description,
                       q_region = region, q_workaround = workaround, q_scope = scope,
                       q_created_at = now, q_updated_at = now,
                       q_session_id = session_id\<rparr>]\<rparr>,
                   row_id))"

definition reinforce_convention ::
  "string \<Rightarrow> store \<Rightarrow> int \<Rightarrow> string option \<Rightarrow> error + (store \<times> rat)"
where
  "reinforce_convention now st convention_id session_id =
     (case find (\<lambda>r. c_id r = convention_id) (conventions_t st) of
        None \<Rightarrow> Inl ValueError
      | Some row \<Rightarrow>
          let new_confidence = min (fadd (c_confidence row) REINFORCE_DELTA) CONFIDENCE_CAP;
              bump = (truthy session_id \<and> session_id \<noteq> c_session_id row);
              new_distinct =
                (if bump then c_distinct_sessions row + 1 else c_distinct_sessions row);
              update_session_id = (if bump then session_id else c_session_id row)
          in if \<not> fk_check st update_session_id then Inl IntegrityError
             else Inr (st\<lparr>conventions_t :=
                          map (\<lambda>r. if c_id r = convention_id
                                   then r\<lparr>c_confidence := new_confidence,
                                          c_distinct_sessions := new_distinct,
                                          c_session_id := update_session_id,
                                          c_updated_at := now\<rparr>
                                   else r) (conventions_t st)\<rparr>,
                       new_confidence))"

definition contradict_convention :: "string \<Rightarrow> store \<Rightarrow> int \<Rightarrow> store \<times> rat" where
  "contradict_convention now st convention_id =
     (st\<lparr>conventions_t :=
          map (\<lambda>r. if c_id r = convention_id
                   then r\<lparr>c_confidence := CONTRADICTION_RESET, c_updated_at := now\<rparr>
                   else r) (conventions_t st)\<rparr>,
      CONTRADICTION_RESET)"

section \<open>Read operations\<close>

definition lookup_fix ::
  "pylib \<Rightarrow> store \<Rightarrow> ustr option \<Rightarrow> string option \<Rightarrow> string option \<Rightarrow>
   string option \<Rightarrow> fix_row list"
where
  "lookup_fix lib st error_text error_hash_arg resource scope_filter =
     (let by_hash =
            (case error_hash_arg of
               Some h \<Rightarrow> if h \<noteq> [] then (\<lambda>r. f_error_hash r = h)
                         else (case error_text of
                                 Some t \<Rightarrow> if t \<noteq> [] then (\<lambda>r. f_error_hash r = error_hash lib t)
                                           else (\<lambda>r. True)
                               | None \<Rightarrow> (\<lambda>r. True))
             | None \<Rightarrow>
                 (case error_text of
                    Some t \<Rightarrow> if t \<noteq> [] then (\<lambda>r. f_error_hash r = error_hash lib t)
                              else (\<lambda>r. True)
                  | None \<Rightarrow> (\<lambda>r. True)));
          by_resource =
            (if truthy resource then (\<lambda>r. f_resource r = resource) else (\<lambda>r. True));
          by_scope =
            (case scope_filter of
               Some s \<Rightarrow> if s \<noteq> [] then (\<lambda>r. f_scope r = s) else (\<lambda>r. True)
             | None \<Rightarrow> (\<lambda>r. True))
      in sort_key (\<lambda>r. - f_hit_count r)
           (filter (\<lambda>r. by_hash r \<and> by_resource r \<and> by_scope r) (fixes_t st)))"

section \<open>Override resolver\<close>

text \<open>
  The dictionaries \<open>_should_override\<close> and \<open>_should_override_convention\<close> read with
  \<open>.get\<close>: a field is \<open>None\<close> when the key is absent, and the default of the \<open>.get\<close>
  call applies.  A row read from the store has every key.
\<close>

record fix_dict =
  fd_scope :: "string option"
  fd_validated :: "int option"

record conv_dict =
  cd_scope :: "string option"
  cd_confidence :: "rat option"
  cd_distinct_sessions :: "int option"

definition fix_row_to_dict :: "fix_row \<Rightarrow> fix_dict" where
  "fix_row_to_dict r = \<lparr>fd_scope = Some (f_scope r), fd_validated = Some (f_validated r)\<rparr>"

definition should_override :: "fix_dict \<Rightarrow> bool \<times> string option" where
  "should_override fx =
     (let scope = (case fd_scope fx of None \<Rightarrow> ''personal'' | Some s \<Rightarrow> s)
      in if scope = ''team'' \<or> scope = ''org'' then (True, Some (scope @ ''-scoped''))
         else if scope = ''personal''
              then (if fd_validated fx = Some 1 then (True, Some ''validated fix'')
                    else (False, None))
              else (False, None))"

text \<open>The format \<open>{eff:.2f}\<close>: the exact value rounded to two decimals, ties to even.\<close>

function dec_of_nat :: "nat \<Rightarrow> string" where
  "dec_of_nat n =
     (if n < 10 then [char_of (48 + n)]
      else dec_of_nat (n div 10) @ [char_of (48 + n mod 10)])"
  by pat_completeness auto
termination
  by (relation "measure id") auto

definition fmt2f :: "rat \<Rightarrow> string" where
  "fmt2f x =
     (let n = nat (round_half_even (\<bar>x\<bar> * 100))
      in (if x < 0 then ''-'' else []) @ dec_of_nat (n div 100) @ ''.'' @
         [char_of (48 + n mod 100 div 10), char_of (48 + n mod 10)])"

definition override_threshold :: rat where
  \<comment> \<open>the expression \<open>0.8 - 1e-9\<close>\<close>
  "override_threshold = fsub (b64 (8 / 10)) (b64 (1 / 10 ^ 9))"

definition should_override_convention :: "conv_dict \<Rightarrow> bool \<times> string option" where
  "should_override_convention conv =
     (let scope = (case cd_scope conv of None \<Rightarrow> ''personal'' | Some s \<Rightarrow> s)
      in if scope = ''team'' \<or> scope = ''org'' then (True, Some (scope @ ''-scoped''))
         else if scope = ''personal''
              then (let eff = effective_confidence
                                (case cd_confidence conv of None \<Rightarrow> 0 | Some c \<Rightarrow> c)
                                (case cd_distinct_sessions conv of None \<Rightarrow> 1 | Some n \<Rightarrow> n)
                    in if override_threshold \<le> eff
                       then (True, Some (''confidence '' @ fmt2f eff @ '' >= 0.8''))
                       else (False, None))
              else (False, None))"

section \<open>Merged query\<close>

text \<open>
  \<open>query_with_priority\<close> reads the corpus through \<open>canon_lib\<close>: \<open>load_canon\<close> is the
  parameter \<open>loaded\<close> (an error or the signature list), and the regular-expression test of
  \<open>match_error\<close> is the parameter \<open>matches\<close>.  The store is the database at \<open>db_path\<close>.
\<close>

datatype 'c payload = Canon 'c | Memory fix_row

record 'c merged_entry =
  source :: string
  overrides_canon :: bool
  override_reason :: "string option"
  entry :: "'c payload"

record 'c query_result =
  canon_results :: "'c list"
  memory_results :: "fix_row list"
  merged :: "'c merged_entry list"

definition match_error :: "('c \<Rightarrow> ustr \<Rightarrow> bool) \<Rightarrow> ustr \<Rightarrow> 'c list \<Rightarrow> 'c list" where
  "match_error matches error_text signatures =
     filter (\<lambda>sig. matches sig error_text) signatures"

fun classify ::
  "fix_row list \<Rightarrow> 'c merged_entry list \<Rightarrow> 'c merged_entry list \<Rightarrow>
   'c merged_entry list \<times> 'c merged_entry list"
where
  "classify [] overriding non_overriding = (overriding, non_overriding)"
| "classify (fx # rest) overriding non_overriding =
     (case should_override (fix_row_to_dict fx) of
        (override, reason) \<Rightarrow>
          let e = \<lparr>source = ''memory'', overrides_canon = override,
                   override_reason = reason, entry = Memory fx\<rparr>
          in if override then classify rest (overriding @ [e]) non_overriding
             else classify rest overriding (non_overriding @ [e]))"

definition canon_entry :: "'c \<Rightarrow> 'c merged_entry" where
  "canon_entry c =
     \<lparr>source = ''canon'', overrides_canon = False, override_reason = None, entry = Canon c\<rparr>"

definition query_with_priority ::
  "pylib \<Rightarrow> error + 'c list \<Rightarrow> ('c \<Rightarrow> ustr \<Rightarrow> bool) \<Rightarrow> store \<Rightarrow> ustr \<Rightarrow>
   'c query_result"
where
  "query_with_priority lib loaded matches st error_text =
     (let canon = (case loaded of Inl _ \<Rightarrow> [] | Inr sigs \<Rightarrow> match_error matches error_text sigs);
          memory_fixes = lookup_fix lib st (Some error_text) None None None
      in case classify memory_fixes [] [] of
           (overriding, non_overriding) \<Rightarrow>
             \<lparr>canon_results = canon, memory_results = memory_fixes,
              merged = overriding @ map canon_entry canon @ non_overriding\<rparr>)"

section \<open>Fork export\<close>








section \<open>Example stores\<close>

text \<open>
  Concrete stores for the worked examples below: the store after a personal, unvalidated
  fix for \<open>Error: timeout\<close> has been recorded, and the same store after the error has been
  reported once more.  The examples use ASCII text, written with \<open>ascii\<close>; on it
  \<open>str.lower()\<close> is \<open>map ascii_lower\<close>.  In place of the digest they read the code points
  back as characters: only that equal texts have equal digests matters in them.
\<close>

definition ascii :: "string \<Rightarrow> ustr" where
  "ascii s = map of_char s"

definition ascii_lower :: "nat \<Rightarrow> nat" where
  "ascii_lower c = (if 65 \<le> c \<and> c \<le> 90 then c + 32 else c)"

definition ascii_lib :: pylib where
  "ascii_lib = \<lparr>str_lower = map ascii_lower, sha256_hex = map char_of\<rparr>"

definition fix_store_0 :: store where
  "fix_store_0 =
     init_schema\<lparr>fixes_t :=
       [\<lparr>f_id = 1, f_error_hash = ''error: timeout'', f_error_text = ascii ''Error: timeout'',
         f_root_cause = ''Network issue'', f_fix = ''Increase timeout'', f_resource = None,
         f_provider = None, f_validated = 0, f_scope = ''personal'',
         f_created_at = ''2026-01-01T00:00:00Z'', f_updated_at = ''2026-01-01T00:00:00Z'',
         f_hit_count = 1, f_session_id = None\<rparr>]\<rparr>"

definition fix_store_1 :: store where
  "fix_store_1 =
     init_schema\<lparr>fixes_t :=
       [\<lparr>f_id = 1, f_error_hash = ''error: timeout'', f_error_text = ascii ''Error: timeout'',
         f_root_cause = ''Network issue'', f_fix = ''Increase timeout'', f_resource = None,
         f_provider = None, f_validated = 0, f_scope = ''personal'',
         f_created_at = ''2026-01-01T00:00:00Z'', f_updated_at = ''2026-01-02T00:00:00Z'',
         f_hit_count = 2, f_session_id = None\<rparr>]\<rparr>"

text \<open>
  A store with a personal, unvalidated fix (three hits) and a team fix (one hit).
\<close>

definition merge_store :: store where
  "merge_store =
     init_schema\<lparr>fixes_t :=
       [\<lparr>f_id = 1, f_error_hash = ''error in iam policy'',
         f_error_text = ascii ''Error in IAM policy'', f_root_cause = ''Bad ARN'',
         f_fix = ''Fix ARN'', f_resource = None, f_provider = None, f_validated = 0,
         f_scope = ''personal'', f_created_at = ''2026-01-01T00:00:00Z'',
         f_updated_at = ''2026-01-03T00:00:00Z'', f_hit_count = 3, f_session_id = None\<rparr>,
        \<lparr>f_id = 2, f_error_hash = ''error creating s3 bucket'',
         f_error_text = ascii ''Error creating S3 bucket'', f_root_cause = ''Bucket name taken'',
         f_fix = ''Use unique prefix'', f_resource = None, f_provider = None,
         f_validated = 0, f_scope = ''team'', f_created_at = ''2026-01-02T00:00:00Z'',
         f_updated_at = ''2026-01-02T00:00:00Z'', f_hit_count = 1, f_session_id = None\<rparr>]\<rparr>"

text \<open>
  Stores for the convention examples: two known sessions and no convention; then the
  convention \<open>(naming, snake_case)\<close> asserted by \<open>sess-001\<close>; then asserted again
  with no session id; then asserted once more by \<open>sess-001\<close>.
\<close>

definition conv_store_init :: store where
  "conv_store_init = init_schema\<lparr>sessions_t := [''sess-001'', ''sess-002'']\<rparr>"

definition conv_store_0 :: store where
  "conv_store_0 =
     conv_store_init\<lparr>conventions_t :=
       [\<lparr>c_id = 1, c_category = ''naming'', c_pattern = ''snake_case'', c_example = None,
         c_source = ''correction'', c_scope = ''personal'',
         c_created_at = ''2026-01-01T00:00:00Z'', c_updated_at = ''2026-01-01T00:00:00Z'',
         c_confidence = b64 (5 / 10), c_session_id = Some ''sess-001'',
         c_distinct_sessions = 1\<rparr>]\<rparr>"

definition conv_store_1 :: store where
  "conv_store_1 =
     conv_store_init\<lparr>conventions_t :=
       [\<lparr>c_id = 1, c_category = ''naming'', c_pattern = ''snake_case'', c_example = None,
         c_source = ''correction'', c_scope = ''personal'',
         c_created_at = ''2026-01-01T00:00:00Z'', c_updated_at = ''2026-01-02T00:00:00Z'',
         c_confidence = b64 (7 / 10), c_session_id = None,
         c_distinct_sessions = 1\<rparr>]\<rparr>"

definition conv_store_2 :: store where
  "conv_store_2 =
     conv_store_init\<lparr>conventions_t :=
       [\<lparr>c_id = 1, c_category = ''naming'', c_pattern = ''snake_case'', c_example = None,
         c_source = ''correction'', c_scope = ''personal'',
         c_created_at = ''2026-01-01T00:00:00Z'', c_updated_at = ''2026-01-03T00:00:00Z'',
         c_confidence = fadd (b64 (7 / 10)) (b64 (2 / 10)), c_session_id = Some ''sess-001'',
         c_distinct_sessions = 2\<rparr>]\<rparr>"






section \<open>Properties of the effective confidence\<close>

text \<open>
  C1.  For every raw confidence and every distinct-session count,
  \<open>effective_confidence\<close> returns \<open>min(raw, 0.7)\<close> when the count is at most 1, and
  otherwise \<open>min(raw + min((distinct_sessions - 1) * 0.05, 0.2), 1.0)\<close>; in particular
  \<open>effective_confidence(raw, 1) = min(raw, 0.7)\<close>.  The literals are the binary64 values
  and the operations the rounded ones.
\<close>

theorem effective_confidence_cases:
  "(distinct_sessions \<le> 1 \<longrightarrow>
      effective_confidence raw distinct_sessions = min raw (b64 (7 / 10))) \<and>
   (\<not> distinct_sessions \<le> 1 \<longrightarrow>
      effective_confidence raw distinct_sessions =
        min (fadd raw (min (fmul (float_of_int (distinct_sessions - 1)) (b64 (5 / 100)))
                           (b64 (2 / 10))))
            (b64 1)) \<and>
   effective_confidence raw 1 = min raw (b64 (7 / 10))"
  by (simp add: effective_confidence_def SINGLE_SESSION_CEILING_def SESSION_BONUS_PER_def
      SESSION_BONUS_CAP_def CONFIDENCE_CAP_def)

theorem effective_confidence_cases_witness:
  "effective_confidence (b64 (9 / 10)) 1 = b64 (7 / 10) \<and>
   effective_confidence (b64 (95 / 100)) 10 = 1 \<and>
   effective_confidence (b64 (3 / 10)) 0 = b64 (3 / 10)"
proof -
  have a: "min (b64 (9 / 10)) (b64 (7 / 10)) = b64 (7 / 10)"
    by code_simp
  have b: "min (fadd (b64 (95 / 100))
                  (min (fmul (float_of_int (10 - 1)) (b64 (5 / 100))) (b64 (2 / 10))))
               (b64 1) = 1"
    by code_simp
  have c: "min (b64 (3 / 10)) (b64 (7 / 10)) = b64 (3 / 10)"
    by code_simp
  show ?thesis
    using effective_confidence_cases [of 1 "b64 (9 / 10)"]
      effective_confidence_cases [of 10 "b64 (95 / 100)"]
      effective_confidence_cases [of 0 "b64 (3 / 10)"] a b c
    by simp
qed

section \<open>The override rule for conventions\<close>

lemma threshold_value: "override_threshold = 7205759394785595 / 2 ^ 53"
  by code_simp

lemma eff_boundary: "effective_confidence (b64 (7 / 10)) 3 = 7205759403792793 / 2 ^ 53"
  by code_simp

lemma float_079_below: "\<not> override_threshold \<le> b64 (79 / 100)"
  by code_simp

lemma fmt_boundary: "fmt2f (effective_confidence (b64 (7 / 10)) 3) = ''0.80''"
  by code_simp

lemma boundary_in_tolerance: "override_threshold \<le> effective_confidence (b64 (7 / 10)) 3"
  by code_simp

text \<open>
  C2, as stated, asks that raw confidence 0.7 with 3 distinct sessions gives an effective
  confidence of exactly 0.8.  In binary64 the sum \<open>0.7 + 0.1\<close> rounds to
  \<open>0.7999999999999999\<close>, which is not the float \<open>0.8\<close>.
\<close>

theorem boundary_not_exact_counterexample:
  "\<not> (effective_confidence (b64 (7 / 10)) 3 = b64 (8 / 10))"
  by code_simp

text \<open>
  C2, amended.  A convention of scope team or org overrides, with reason
  \<open><scope>-scoped\<close>.  A personal convention (also one whose scope key is absent) overrides
  if and only if its effective confidence is at least the float \<open>0.8 - 1e-9\<close>, and then the
  reason records the value to two decimals.  Raw confidence 0.7 with 3 distinct sessions
  has an effective confidence one unit in the last place below the float 0.8, within
  \<open>1e-15\<close> of 0.8; it is classified as overriding, with reason
  \<open>confidence 0.80 >= 0.8\<close>.  An effective confidence of 0.79 is classified as
  non-overriding.
\<close>

theorem should_override_convention_rule:
  "(cd_scope conv = Some ''team'' \<longrightarrow>
      should_override_convention conv = (True, Some ''team-scoped'')) \<and>
   (cd_scope conv = Some ''org'' \<longrightarrow>
      should_override_convention conv = (True, Some ''org-scoped'')) \<and>
   (cd_scope conv = Some ''personal'' \<or> cd_scope conv = None \<longrightarrow>
      (let eff = effective_confidence
                   (case cd_confidence conv of None \<Rightarrow> 0 | Some c \<Rightarrow> c)
                   (case cd_distinct_sessions conv of None \<Rightarrow> 1 | Some n \<Rightarrow> n)
       in (fst (should_override_convention conv) \<longleftrightarrow> override_threshold \<le> eff) \<and>
          should_override_convention conv =
            (if override_threshold \<le> eff
             then (True, Some (''confidence '' @ fmt2f eff @ '' >= 0.8''))
             else (False, None)))) \<and>
   override_threshold = fsub (b64 (8 / 10)) (b64 (1 / 10 ^ 9)) \<and>
   \<bar>8 / 10 - 1 / 10 ^ 9 - override_threshold\<bar> < 1 / 10 ^ 16 \<and>
   \<bar>8 / 10 - effective_confidence (b64 (7 / 10)) 3\<bar> < 1 / 10 ^ 15 \<and>
   b64 (8 / 10) - effective_confidence (b64 (7 / 10)) 3 = 1 / 2 ^ 53 \<and>
   should_override_convention
     \<lparr>cd_scope = Some ''personal'', cd_confidence = Some (b64 (7 / 10)),
      cd_distinct_sessions = Some 3\<rparr> = (True, Some ''confidence 0.80 >= 0.8'') \<and>
   (effective_confidence c n = b64 (79 / 100) \<longrightarrow>
      should_override_convention
        \<lparr>cd_scope = Some ''personal'', cd_confidence = Some c,
         cd_distinct_sessions = Some n\<rparr> = (False, None))"
proof -
  have team: "cd_scope conv = Some ''team'' \<longrightarrow>
      should_override_convention conv = (True, Some ''team-scoped'')"
    by (simp add: should_override_convention_def)
  have org: "cd_scope conv = Some ''org'' \<longrightarrow>
      should_override_convention conv = (True, Some ''org-scoped'')"
    by (simp add: should_override_convention_def)
  have personal: "cd_scope conv = Some ''personal'' \<or> cd_scope conv = None \<longrightarrow>
      (let eff = effective_confidence
                   (case cd_confidence conv of None \<Rightarrow> 0 | Some c \<Rightarrow> c)
                   (case cd_distinct_sessions conv of None \<Rightarrow> 1 | Some n \<Rightarrow> n)
       in (fst (should_override_convention conv) \<longleftrightarrow> override_threshold \<le> eff) \<and>
          should_override_convention conv =
            (if override_threshold \<le> eff
             then (True, Some (''confidence '' @ fmt2f eff @ '' >= 0.8''))
             else (False, None)))"
    by (auto simp add: should_override_convention_def Let_def)
  have thr: "override_threshold = fsub (b64 (8 / 10)) (b64 (1 / 10 ^ 9))"
    by (simp add: override_threshold_def)
  have tol: "\<bar>8 / 10 - 1 / 10 ^ 9 - override_threshold\<bar> < 1 / 10 ^ 16"
    by (simp add: threshold_value)
  have near: "\<bar>8 / 10 - effective_confidence (b64 (7 / 10)) 3\<bar> < 1 / 10 ^ 15"
    by (simp add: eff_boundary)
  have ulp: "b64 (8 / 10) - effective_confidence (b64 (7 / 10)) 3 = 1 / 2 ^ 53"
    by code_simp
  have at: "should_override_convention
     \<lparr>cd_scope = Some ''personal'', cd_confidence = Some (b64 (7 / 10)),
      cd_distinct_sessions = Some 3\<rparr> = (True, Some ''confidence 0.80 >= 0.8'')"
    by (simp add: should_override_convention_def Let_def fmt_boundary boundary_in_tolerance)
  have below: "effective_confidence c n = b64 (79 / 100) \<longrightarrow>
      should_override_convention
        \<lparr>cd_scope = Some ''personal'', cd_confidence = Some c,
         cd_distinct_sessions = Some n\<rparr> = (False, None)"
    using float_079_below by (simp add: should_override_convention_def Let_def)
  show ?thesis
    using team org personal thr tol near ulp at below by blast
qed

theorem should_override_convention_rule_witness:
  "should_override_convention
     \<lparr>cd_scope = Some ''team'', cd_confidence = Some (b64 (3 / 10)),
      cd_distinct_sessions = Some 1\<rparr> = (True, Some ''team-scoped'') \<and>
   should_override_convention
     \<lparr>cd_scope = Some ''personal'', cd_confidence = Some (b64 (74 / 100)),
      cd_distinct_sessions = Some 2\<rparr> = (False, None)"
proof -
  have e: "effective_confidence (b64 (74 / 100)) 2 = b64 (79 / 100)"
    by code_simp
  show ?thesis
    using should_override_convention_rule
      [of "\<lparr>cd_scope = Some ''team'', cd_confidence = Some (b64 (3 / 10)),
            cd_distinct_sessions = Some 1\<rparr>" "b64 (74 / 100)" 2] e
    by simp
qed

section \<open>Recording fixes\<close>

lemma norm_ex1:
  "normalize_error ascii_lib (ascii ''Error: timeout'') = ascii ''error: timeout''"
  by (simp add: normalize_error_def ascii_lib_def ascii_def strip_def is_space_def
      ascii_lower_def)

lemma norm_ex2:
  "normalize_error ascii_lib (ascii ''  ERROR:   Timeout '') = ascii ''error: timeout''"
  by (simp add: normalize_error_def ascii_lib_def ascii_def strip_def is_space_def
      ascii_lower_def)

lemma digest_ascii: "sha256_hex ascii_lib (ascii s) = s"
  by (simp add: ascii_lib_def ascii_def comp_def)

lemma hash_ex1: "error_hash ascii_lib (ascii ''Error: timeout'') = ''error: timeout''"
  by (simp only: error_hash_def norm_ex1 digest_ascii)

lemma hash_ex2: "error_hash ascii_lib (ascii ''  ERROR:   Timeout '') = ''error: timeout''"
  by (simp only: error_hash_def norm_ex2 digest_ascii)

lemma ascii_nonempty: "ascii (c # cs) \<noteq> []"
  by (simp add: ascii_def)

lemma record_fix_ex1:
  "record_fix ascii_lib ''2026-01-01T00:00:00Z'' init_schema (ascii ''Error: timeout'')
     ''Network issue'' ''Increase timeout'' None None 0 ''personal'' None =
   Inr (fix_store_0, 1)"
  by (simp add: record_fix_def hash_ex1 init_schema_def fix_store_0_def
      scope_check_def fk_check_def next_id_def)

lemma record_fix_ex2:
  "record_fix ascii_lib ''2026-01-02T00:00:00Z'' fix_store_0 (ascii ''  ERROR:   Timeout '')
     ''Network issue'' ''Increase timeout'' None None 1 ''personal'' None =
   Inr (fix_store_1, 1)"
  by (simp add: record_fix_def hash_ex2 init_schema_def fix_store_0_def
      fix_store_1_def)

lemma lookup_fix_ex:
  "map (should_override \<circ> fix_row_to_dict)
     (lookup_fix ascii_lib fix_store_1 (Some (ascii ''Error: timeout'')) None None None) = [(False, None)]"
  by (simp add: lookup_fix_def hash_ex1 fix_store_1_def init_schema_def
      truthy_def should_override_def fix_row_to_dict_def)

lemma fold_max_ge: "(a::int) \<le> fold max xs a"
proof (induction xs arbitrary: a)
  case Nil
  show ?case by simp
next
  case (Cons x xs)
  have "a \<le> max x a" by simp
  also have "\<dots> \<le> fold max xs (max x a)" by (rule Cons.IH)
  finally show ?case by simp
qed

lemma fold_max_mem: "(x::int) \<in> set xs \<Longrightarrow> x \<le> fold max xs a"
proof (induction xs arbitrary: a)
  case Nil
  then show ?case by simp
next
  case (Cons y ys)
  show ?case
  proof (cases "x = y")
    case True
    have "x \<le> max y a" using True by simp
    also have "\<dots> \<le> fold max ys (max y a)" by (rule fold_max_ge)
    finally show ?thesis by simp
  next
    case False
    with Cons.prems have "x \<in> set ys" by simp
    then show ?thesis using Cons.IH by simp
  qed
qed

lemma next_id_fresh: "next_id ids \<notin> set ids"
proof
  assume "next_id ids \<in> set ids"
  then have "next_id ids \<le> fold max ids 0" by (rule fold_max_mem)
  then show False by (simp add: next_id_def)
qed

lemma map_update_unique:
  assumes "distinct (map f xs)" and "i < length xs"
  shows "map (\<lambda>y. if f y = f (xs ! i) then g y else y) xs = xs[i := g (xs ! i)]"
proof (rule nth_equalityI)
  show "length (map (\<lambda>y. if f y = f (xs ! i) then g y else y) xs) = length (xs[i := g (xs ! i)])"
    by simp
next
  fix j
  assume "j < length (map (\<lambda>y. if f y = f (xs ! i) then g y else y) xs)"
  then have j: "j < length xs" by simp
  have "f (xs ! j) = f (xs ! i) \<longleftrightarrow> j = i"
    using assms j nth_eq_iff_index_eq [of "map f xs" j i] by auto
  then show "map (\<lambda>y. if f y = f (xs ! i) then g y else y) xs ! j = xs[i := g (xs ! i)] ! j"
    using j assms(2) by (auto simp: nth_list_update)
qed

lemma find_unique:
  assumes "distinct (map h xs)" and "i < length xs"
  shows "find (\<lambda>r. h r = h (xs ! i)) xs = Some (xs ! i)"
proof -
  have "\<forall>j<i. h (xs ! j) \<noteq> h (xs ! i)"
    using assms nth_eq_iff_index_eq [of "map h xs"] by auto
  then show ?thesis
    using assms(2) by (auto simp: find_Some_iff)
qed






section \<open>Override rule for fixes\<close>

lemma record_fix_existing_keeps_flags:
  assumes "find (\<lambda>r. f_error_hash r = error_hash lib t) (fixes_t st) \<noteq> None"
  shows "\<exists>st' rid. record_fix lib now st t rc fxt res prov val scope sid = Inr (st', rid) \<and>
           map f_validated (fixes_t st') = map f_validated (fixes_t st) \<and>
           map f_scope (fixes_t st') = map f_scope (fixes_t st)"
proof -
  from assms obtain existing
    where "find (\<lambda>r. f_error_hash r = error_hash lib t) (fixes_t st) = Some existing"
    by auto
  then have "record_fix lib now st t rc fxt res prov val scope sid =
      Inr (st\<lparr>fixes_t :=
               map (\<lambda>r. if f_id r = f_id existing
                        then r\<lparr>f_hit_count := f_hit_count existing + 1, f_updated_at := now\<rparr>
                        else r) (fixes_t st)\<rparr>, f_id existing)"
    by (simp add: record_fix_def Let_def)
  then show ?thesis by simp
qed

text \<open>
  C8, as stated, has the same fix re-recorded with \<open>validated = 1\<close> override.  The update
  path of \<open>record_fix\<close> writes \<open>hit_count\<close> and \<open>updated_at\<close> only: after a personal fix is
  recorded with \<open>validated = 0\<close> and the same normalised error is recorded again with
  \<open>validated = 1\<close>, the stored row is still unvalidated and does not override.
\<close>

theorem rerecord_validated_counterexample:
  "record_fix ascii_lib ''2026-01-01T00:00:00Z'' init_schema (ascii ''Error: timeout'')
     ''Network issue'' ''Increase timeout'' None None 0 ''personal'' None =
   Inr (fix_store_0, 1) \<and>
   record_fix ascii_lib ''2026-01-02T00:00:00Z'' fix_store_0 (ascii ''  ERROR:   Timeout '')
     ''Network issue'' ''Increase timeout'' None None 1 ''personal'' None =
   Inr (fix_store_1, 1) \<and>
   map (should_override \<circ> fix_row_to_dict)
     (lookup_fix ascii_lib fix_store_1 (Some (ascii ''Error: timeout'')) None None None) = [(False, None)]"
  using record_fix_ex1 record_fix_ex2 lookup_fix_ex by simp

text \<open>
  C8, amended.  \<open>_should_override\<close> returns \<open>(true, "<scope>-scoped")\<close> for scope team or
  org, \<open>(true, "validated fix")\<close> for a personal fix (also one whose scope key is absent)
  whose \<open>validated\<close> is 1, and \<open>(false, null)\<close> for a personal fix whose \<open>validated\<close> is not
  1.  So a personal fix record with \<open>validated = 0\<close> does not override and the same record
  with \<open>validated = 1\<close> does.  Recording an error that is already in the store leaves
  every stored \<open>validated\<close> flag, and so every stored fix's classification, as it was.
\<close>

theorem should_override_rule:
  "(fd_scope fx = Some ''team'' \<longrightarrow> should_override fx = (True, Some ''team-scoped'')) \<and>
   (fd_scope fx = Some ''org'' \<longrightarrow> should_override fx = (True, Some ''org-scoped'')) \<and>
   ((fd_scope fx = Some ''personal'' \<or> fd_scope fx = None) \<and> fd_validated fx = Some 1 \<longrightarrow>
      should_override fx = (True, Some ''validated fix'')) \<and>
   ((fd_scope fx = Some ''personal'' \<or> fd_scope fx = None) \<and> fd_validated fx \<noteq> Some 1 \<longrightarrow>
      should_override fx = (False, None)) \<and>
   (f_scope row = ''personal'' \<longrightarrow>
      should_override (fix_row_to_dict (row\<lparr>f_validated := 0\<rparr>)) = (False, None) \<and>
      should_override (fix_row_to_dict (row\<lparr>f_validated := 1\<rparr>)) =
        (True, Some ''validated fix'')) \<and>
   (find (\<lambda>r. f_error_hash r = error_hash lib t) (fixes_t st) \<noteq> None \<longrightarrow>
      (\<exists>st' rid.
         record_fix lib now st t rc fxt res prov val scope sid = Inr (st', rid) \<and>
         map f_validated (fixes_t st') = map f_validated (fixes_t st) \<and>
         map (should_override \<circ> fix_row_to_dict) (fixes_t st') =
           map (should_override \<circ> fix_row_to_dict) (fixes_t st)))"
proof -
  have team: "fd_scope fx = Some ''team'' \<longrightarrow> should_override fx = (True, Some ''team-scoped'')"
    by (simp add: should_override_def)
  have org: "fd_scope fx = Some ''org'' \<longrightarrow> should_override fx = (True, Some ''org-scoped'')"
    by (simp add: should_override_def)
  have val: "(fd_scope fx = Some ''personal'' \<or> fd_scope fx = None) \<and> fd_validated fx = Some 1 \<longrightarrow>
      should_override fx = (True, Some ''validated fix'')"
    by (auto simp: should_override_def)
  have unval: "(fd_scope fx = Some ''personal'' \<or> fd_scope fx = None) \<and> fd_validated fx \<noteq> Some 1 \<longrightarrow>
      should_override fx = (False, None)"
    by (auto simp: should_override_def)
  have flip: "f_scope row = ''personal'' \<longrightarrow>
      should_override (fix_row_to_dict (row\<lparr>f_validated := 0\<rparr>)) = (False, None) \<and>
      should_override (fix_row_to_dict (row\<lparr>f_validated := 1\<rparr>)) =
        (True, Some ''validated fix'')"
    by (simp add: should_override_def fix_row_to_dict_def)
  have rerecord: "find (\<lambda>r. f_error_hash r = error_hash lib t) (fixes_t st) \<noteq> None \<longrightarrow>
      (\<exists>st' rid.
         record_fix lib now st t rc fxt res prov val scope sid = Inr (st', rid) \<and>
         map f_validated (fixes_t st') = map f_validated (fixes_t st) \<and>
         map (should_override \<circ> fix_row_to_dict) (fixes_t st') =
           map (should_override \<circ> fix_row_to_dict) (fixes_t st))"
  proof
    assume "find (\<lambda>r. f_error_hash r = error_hash lib t) (fixes_t st) \<noteq> None"
    from record_fix_existing_keeps_flags [OF this, of now rc fxt res prov val scope sid]
    obtain st' rid where r: "record_fix lib now st t rc fxt res prov val scope sid = Inr (st', rid)"
      and v: "map f_validated (fixes_t st') = map f_validated (fixes_t st)"
      and s: "map f_scope (fixes_t st') = map f_scope (fixes_t st)"
      by blast
    have "map (should_override \<circ> fix_row_to_dict) (fixes_t st') =
          map (\<lambda>p. should_override \<lparr>fd_scope = Some (fst p), fd_validated = Some (snd p)\<rparr>)
            (zip (map f_scope (fixes_t st')) (map f_validated (fixes_t st')))"
      by (simp add: zip_map_map fix_row_to_dict_def comp_def zip_same_conv_map)
    also have "\<dots> = map (should_override \<circ> fix_row_to_dict) (fixes_t st)"
      unfolding v s
      by (simp add: zip_map_map fix_row_to_dict_def comp_def zip_same_conv_map)
    finally show "\<exists>st' rid.
         record_fix lib now st t rc fxt res prov val scope sid = Inr (st', rid) \<and>
         map f_validated (fixes_t st') = map f_validated (fixes_t st) \<and>
         map (should_override \<circ> fix_row_to_dict) (fixes_t st') =
           map (should_override \<circ> fix_row_to_dict) (fixes_t st)"
      using r v by blast
  qed
  show ?thesis
    using team org val unval flip rerecord by blast
qed

theorem should_override_rule_witness:
  "should_override \<lparr>fd_scope = Some ''team'', fd_validated = Some 0\<rparr> =
     (True, Some ''team-scoped'') \<and>
   should_override \<lparr>fd_scope = Some ''org'', fd_validated = Some 0\<rparr> =
     (True, Some ''org-scoped'') \<and>
   should_override \<lparr>fd_scope = Some ''personal'', fd_validated = Some 1\<rparr> =
     (True, Some ''validated fix'') \<and>
   should_override \<lparr>fd_scope = Some ''personal'', fd_validated = Some 0\<rparr> = (False, None) \<and>
   should_override (fix_row_to_dict (hd (fixes_t fix_store_0)\<lparr>f_validated := 1\<rparr>)) =
     (True, Some ''validated fix'') \<and>
   map f_validated (fixes_t fix_store_1) = map f_validated (fixes_t fix_store_0)"
proof -
  have f: "find (\<lambda>r. f_error_hash r = error_hash ascii_lib (ascii ''  ERROR:   Timeout '')) (fixes_t fix_store_0)
           \<noteq> None"
    by (simp add: fix_store_0_def hash_ex2)
  have p: "f_scope (hd (fixes_t fix_store_0)) = ''personal''"
    by (simp add: fix_store_0_def)
  note R = should_override_rule [where lib = ascii_lib and st = fix_store_0
      and t = "ascii ''  ERROR:   Timeout ''" and now = "''2026-01-02T00:00:00Z''"
      and rc = "''Network issue''" and fxt = "''Increase timeout''" and res = None
      and prov = None and val = 1 and scope = "''personal''" and sid = None
      and row = "hd (fixes_t fix_store_0)"]
  have 1: "should_override \<lparr>fd_scope = Some ''team'', fd_validated = Some 0\<rparr> =
     (True, Some ''team-scoped'')"
    using R [where fx = "\<lparr>fd_scope = Some ''team'', fd_validated = Some 0\<rparr>"] by simp
  have 2: "should_override \<lparr>fd_scope = Some ''org'', fd_validated = Some 0\<rparr> =
     (True, Some ''org-scoped'')"
    using R [where fx = "\<lparr>fd_scope = Some ''org'', fd_validated = Some 0\<rparr>"] by simp
  have 3: "should_override \<lparr>fd_scope = Some ''personal'', fd_validated = Some 1\<rparr> =
     (True, Some ''validated fix'')"
    using R [where fx = "\<lparr>fd_scope = Some ''personal'', fd_validated = Some 1\<rparr>"] by simp
  have 4: "should_override \<lparr>fd_scope = Some ''personal'', fd_validated = Some 0\<rparr> = (False, None)"
    using R [where fx = "\<lparr>fd_scope = Some ''personal'', fd_validated = Some 0\<rparr>"] by simp
  have 5: "should_override (fix_row_to_dict (hd (fixes_t fix_store_0)\<lparr>f_validated := 1\<rparr>)) =
     (True, Some ''validated fix'')"
    using R [where fx = "\<lparr>fd_scope = Some ''team'', fd_validated = Some 0\<rparr>"] p by blast
  have 6: "map f_validated (fixes_t fix_store_1) = map f_validated (fixes_t fix_store_0)"
    using R [where fx = "\<lparr>fd_scope = Some ''team'', fd_validated = Some 0\<rparr>"] f record_fix_ex2
    by auto
  show ?thesis using 1 2 3 4 5 6 by blast
qed

section \<open>Order of the merged query\<close>

lemma classify_eq:
  "classify xs ov non =
     (ov @ map (\<lambda>fx. \<lparr>source = ''memory'',
                        overrides_canon = fst (should_override (fix_row_to_dict fx)),
                        override_reason = snd (should_override (fix_row_to_dict fx)),
                        entry = Memory fx\<rparr>)
             (filter (\<lambda>fx. fst (should_override (fix_row_to_dict fx))) xs),
      non @ map (\<lambda>fx. \<lparr>source = ''memory'',
                         overrides_canon = fst (should_override (fix_row_to_dict fx)),
                         override_reason = snd (should_override (fix_row_to_dict fx)),
                         entry = Memory fx\<rparr>)
             (filter (\<lambda>fx. \<not> fst (should_override (fix_row_to_dict fx))) xs))"
  by (induction xs arbitrary: ov non) (auto simp: Let_def split: prod.splits)

text \<open>
  C7.  The result of \<open>query_with_priority\<close> has the fields \<open>canon_results\<close>,
  \<open>memory_results\<close> and \<open>merged\<close>.  \<open>merged\<close> is: the Memory entries that override, in
  the order of the Memory lookup; then every corpus entry, in the corpus's order, with
  \<open>overrides_canon = false\<close> and no reason; then the Memory entries that do not override.
\<close>

theorem query_with_priority_order:
  "let res = query_with_priority lib loaded matches st error_text;
       canon = (case loaded of Inl e \<Rightarrow> [] | Inr sigs \<Rightarrow> filter (\<lambda>s. matches s error_text) sigs);
       mem = lookup_fix lib st (Some error_text) None None None;
       over = (\<lambda>fx. fst (should_override (fix_row_to_dict fx)));
       mk = (\<lambda>fx. \<lparr>source = ''memory'', overrides_canon = over fx,
                    override_reason = snd (should_override (fix_row_to_dict fx)),
                    entry = Memory fx\<rparr>)
   in canon_results res = canon \<and> memory_results res = mem \<and>
      merged res =
        map mk (filter over mem) @
        map (\<lambda>c. \<lparr>source = ''canon'', overrides_canon = False, override_reason = None,
                  entry = Canon c\<rparr>) canon @
        map mk (filter (\<lambda>fx. \<not> over fx) mem) \<and>
      list_all overrides_canon (map mk (filter over mem)) \<and>
      list_all (\<lambda>e. \<not> overrides_canon e) (map mk (filter (\<lambda>fx. \<not> over fx) mem))"
  by (cases loaded)
     (simp_all add: query_with_priority_def classify_eq match_error_def canon_entry_def
       Let_def list_all_iff)

lemma lookup_all_ex:
  "lookup_fix ascii_lib merge_store (Some []) None None None = fixes_t merge_store"
  by (simp add: lookup_fix_def merge_store_def init_schema_def truthy_def)

theorem query_with_priority_order_witness:
  "merged (query_with_priority ascii_lib (Inr [''timeout'', ''denied'']) (\<lambda>s t. True) merge_store []) =
     [\<lparr>source = ''memory'', overrides_canon = True, override_reason = Some ''team-scoped'',
       entry = Memory (fixes_t merge_store ! 1)\<rparr>,
      \<lparr>source = ''canon'', overrides_canon = False, override_reason = None,
       entry = Canon ''timeout''\<rparr>,
      \<lparr>source = ''canon'', overrides_canon = False, override_reason = None,
       entry = Canon ''denied''\<rparr>,
      \<lparr>source = ''memory'', overrides_canon = False, override_reason = None,
       entry = Memory (fixes_t merge_store ! 0)\<rparr>]"
  using query_with_priority_order
    [of ascii_lib "Inr [''timeout'', ''denied'']" "\<lambda>s t. True" merge_store "[]"]
  by (simp add: Let_def lookup_all_ex)
     (simp add: merge_store_def init_schema_def should_override_def fix_row_to_dict_def)

section \<open>Recording and reinforcing conventions\<close>

lemma list_update_same_key:
  assumes "i < length xs" and "k r = k (xs ! i)"
  shows "map k (xs[i := r]) = map k xs"
  using assms by (simp add: map_update list_update_same_conv)

lemma record_convention_insert:
  assumes "\<forall>r\<in>set (conventions_t st). \<not> (c_category r = category \<and> c_pattern r = pattern)"
      and "scope_check scope" and "fk_check st sid"
  shows "record_convention now st category pattern example src scope sid =
           Inr (st\<lparr>conventions_t := conventions_t st @
                  [\<lparr>c_id = next_id (map c_id (conventions_t st)), c_category = category,
                    c_pattern = pattern, c_example = example, c_source = src,
                    c_scope = scope, c_created_at = now, c_updated_at = now,
                    c_confidence = CONFIDENCE_BASE, c_session_id = sid,
                    c_distinct_sessions = 1\<rparr>]\<rparr>,
                next_id (map c_id (conventions_t st)))"
proof -
  have "find (\<lambda>r. c_category r = category \<and> c_pattern r = pattern) (conventions_t st) = None"
    using assms(1) by (simp add: find_None_iff)
  then show ?thesis
    using assms(2,3) by (simp add: record_convention_def Let_def)
qed

lemma find_convention:
  assumes keys: "distinct (map (\<lambda>r. (c_category r, c_pattern r)) (conventions_t st))"
      and i: "i < length (conventions_t st)"
  shows "find (\<lambda>r. c_category r = c_category (conventions_t st ! i) \<and>
                    c_pattern r = c_pattern (conventions_t st ! i)) (conventions_t st) =
         Some (conventions_t st ! i)"
  using find_unique [OF keys i] by simp

lemma record_convention_update:
  assumes ids: "distinct (map c_id (conventions_t st))"
      and keys: "distinct (map (\<lambda>r. (c_category r, c_pattern r)) (conventions_t st))"
      and i: "i < length (conventions_t st)"
      and fk: "fk_check st sid"
  shows "record_convention now st (c_category (conventions_t st ! i))
           (c_pattern (conventions_t st ! i)) example src scope sid =
         Inr (st\<lparr>conventions_t := (conventions_t st)
                [i := (conventions_t st ! i)
                   \<lparr>c_confidence :=
                      min (fadd (c_confidence (conventions_t st ! i)) CORRECTION_DELTA)
                          CONFIDENCE_CAP,
                    c_distinct_sessions :=
                      (if truthy sid \<and> sid \<noteq> c_session_id (conventions_t st ! i)
                       then c_distinct_sessions (conventions_t st ! i) + 1
                       else c_distinct_sessions (conventions_t st ! i)),
                    c_session_id := sid, c_updated_at := now\<rparr>]\<rparr>,
              c_id (conventions_t st ! i))"
proof -
  let ?row = "conventions_t st ! i"
  let ?upd = "\<lambda>r. r\<lparr>c_confidence := min (fadd (c_confidence ?row) CORRECTION_DELTA) CONFIDENCE_CAP,
                    c_distinct_sessions :=
                      (if truthy sid \<and> sid \<noteq> c_session_id ?row
                       then c_distinct_sessions ?row + 1 else c_distinct_sessions ?row),
                    c_session_id := sid, c_updated_at := now\<rparr>"
  have "map (\<lambda>r. if c_id r = c_id ?row then ?upd r else r) (conventions_t st) =
        (conventions_t st)[i := ?upd ?row]"
    by (rule map_update_unique [OF ids i])
  then show ?thesis
    using find_convention [OF keys i] fk by (simp add: record_convention_def Let_def)
qed

lemma find_by_id:
  assumes ids: "distinct (map c_id (conventions_t st))" and i: "i < length (conventions_t st)"
  shows "find (\<lambda>r. c_id r = c_id (conventions_t st ! i)) (conventions_t st) =
         Some (conventions_t st ! i)"
  using find_unique [OF ids i] by simp

lemma reinforce_convention_update:
  assumes ids: "distinct (map c_id (conventions_t st))"
      and i: "i < length (conventions_t st)"
      and fk: "fk_check st (if truthy sid \<and> sid \<noteq> c_session_id (conventions_t st ! i)
                            then sid else c_session_id (conventions_t st ! i))"
  shows "reinforce_convention now st (c_id (conventions_t st ! i)) sid =
         Inr (st\<lparr>conventions_t := (conventions_t st)
                [i := (conventions_t st ! i)
                   \<lparr>c_confidence :=
                      min (fadd (c_confidence (conventions_t st ! i)) REINFORCE_DELTA)
                          CONFIDENCE_CAP,
                    c_distinct_sessions :=
                      (if truthy sid \<and> sid \<noteq> c_session_id (conventions_t st ! i)
                       then c_distinct_sessions (conventions_t st ! i) + 1
                       else c_distinct_sessions (conventions_t st ! i)),
                    c_session_id :=
                      (if truthy sid \<and> sid \<noteq> c_session_id (conventions_t st ! i)
                       then sid else c_session_id (conventions_t st ! i)),
                    c_updated_at := now\<rparr>]\<rparr>,
              min (fadd (c_confidence (conventions_t st ! i)) REINFORCE_DELTA) CONFIDENCE_CAP)"
proof -
  let ?row = "conventions_t st ! i"
  let ?bump = "truthy sid \<and> sid \<noteq> c_session_id ?row"
  let ?upd = "\<lambda>r. r\<lparr>c_confidence := min (fadd (c_confidence ?row) REINFORCE_DELTA) CONFIDENCE_CAP,
                    c_distinct_sessions :=
                      (if ?bump then c_distinct_sessions ?row + 1 else c_distinct_sessions ?row),
                    c_session_id := (if ?bump then sid else c_session_id ?row),
                    c_updated_at := now\<rparr>"
  have "map (\<lambda>r. if c_id r = c_id ?row then ?upd r else r) (conventions_t st) =
        (conventions_t st)[i := ?upd ?row]"
    by (rule map_update_unique [OF ids i])
  then show ?thesis
    using find_by_id [OF ids i] fk by (simp add: reinforce_convention_def Let_def)
qed

lemma float_one: "b64 1 = 1"
  by code_simp

lemma float_half: "b64 (5 / 10) = 1 / 2"
  by code_simp

lemma conv_ex0:
  "record_convention ''2026-01-01T00:00:00Z'' conv_store_init ''naming'' ''snake_case'' None
     ''correction'' ''personal'' (Some ''sess-001'') = Inr (conv_store_0, 1)"
  by (simp add: record_convention_def conv_store_init_def conv_store_0_def init_schema_def
      scope_check_def fk_check_def next_id_def CONFIDENCE_BASE_def)

lemma float_05_02: "min (fadd (b64 (5 / 10)) CORRECTION_DELTA) CONFIDENCE_CAP = b64 (7 / 10)"
  by code_simp

lemma float_07_02:
  "min (fadd (b64 (7 / 10)) CORRECTION_DELTA) CONFIDENCE_CAP = fadd (b64 (7 / 10)) (b64 (2 / 10))"
  by code_simp

lemma conv_ex1:
  "record_convention ''2026-01-02T00:00:00Z'' conv_store_0 ''naming'' ''snake_case'' None
     ''correction'' ''personal'' None = Inr (conv_store_1, 1)"
  using float_05_02
  by (simp add: record_convention_def conv_store_init_def conv_store_0_def conv_store_1_def
      init_schema_def fk_check_def truthy_def)

lemma conv_ex2:
  "record_convention ''2026-01-03T00:00:00Z'' conv_store_1 ''naming'' ''snake_case'' None
     ''correction'' ''personal'' (Some ''sess-001'') = Inr (conv_store_2, 1)"
  using float_07_02
  by (simp add: record_convention_def conv_store_init_def conv_store_1_def conv_store_2_def
      init_schema_def fk_check_def truthy_def)

text \<open>
  C4.  In a store whose conventions have distinct ids and distinct (category, pattern)
  keys: \<open>record_convention\<close> on an existing key (the session id, if any, being a known
  session) sets the row's confidence to \<open>min(old + 0.2, 1.0)\<close> and its \<open>updated_at\<close> to the
  current time, and changes \<open>distinct_sessions\<close> only by adding 1 and only when the
  supplied session id differs from the stored one; on a key that does not exist (scope
  and session id passing the schema's checks) it appends a row with confidence 0.5 and
  \<open>distinct_sessions = 1\<close>.
\<close>

theorem record_convention_upsert:
  assumes "distinct (map c_id (conventions_t st))"
      and "distinct (map (\<lambda>r. (c_category r, c_pattern r)) (conventions_t st))"
  shows "(\<forall>i<length (conventions_t st).
            c_category (conventions_t st ! i) = category \<and>
            c_pattern (conventions_t st ! i) = pattern \<longrightarrow> fk_check st sid \<longrightarrow>
            (let old = conventions_t st ! i;
                 new_distinct = (if truthy sid \<and> sid \<noteq> c_session_id old
                                 then c_distinct_sessions old + 1 else c_distinct_sessions old)
             in record_convention now st category pattern example src scope sid =
                  Inr (st\<lparr>conventions_t := (conventions_t st)
                         [i := old\<lparr>c_confidence := min (fadd (c_confidence old) (b64 (2 / 10))) 1,
                                   c_distinct_sessions := new_distinct,
                                   c_session_id := sid, c_updated_at := now\<rparr>]\<rparr>,
                       c_id old) \<and>
                (new_distinct \<noteq> c_distinct_sessions old \<longrightarrow>
                   new_distinct = c_distinct_sessions old + 1 \<and> sid \<noteq> c_session_id old))) \<and>
         ((\<forall>r\<in>set (conventions_t st). \<not> (c_category r = category \<and> c_pattern r = pattern)) \<longrightarrow>
          scope_check scope \<longrightarrow> fk_check st sid \<longrightarrow>
            (\<exists>row. record_convention now st category pattern example src scope sid =
                      Inr (st\<lparr>conventions_t := conventions_t st @ [row]\<rparr>, c_id row) \<and>
                    c_category row = category \<and> c_pattern row = pattern \<and>
                    c_confidence row = 1 / 2 \<and> c_distinct_sessions row = 1 \<and>
                    c_session_id row = sid \<and> c_id row \<notin> c_id ` set (conventions_t st)))"
proof -
  have upd: "\<forall>i<length (conventions_t st).
            c_category (conventions_t st ! i) = category \<and>
            c_pattern (conventions_t st ! i) = pattern \<longrightarrow> fk_check st sid \<longrightarrow>
            (let old = conventions_t st ! i;
                 new_distinct = (if truthy sid \<and> sid \<noteq> c_session_id old
                                 then c_distinct_sessions old + 1 else c_distinct_sessions old)
             in record_convention now st category pattern example src scope sid =
                  Inr (st\<lparr>conventions_t := (conventions_t st)
                         [i := old\<lparr>c_confidence := min (fadd (c_confidence old) (b64 (2 / 10))) 1,
                                   c_distinct_sessions := new_distinct,
                                   c_session_id := sid, c_updated_at := now\<rparr>]\<rparr>,
                       c_id old) \<and>
                (new_distinct \<noteq> c_distinct_sessions old \<longrightarrow>
                   new_distinct = c_distinct_sessions old + 1 \<and> sid \<noteq> c_session_id old))"
  proof (intro allI impI)
    fix i
    assume i: "i < length (conventions_t st)"
       and k: "c_category (conventions_t st ! i) = category \<and>
               c_pattern (conventions_t st ! i) = pattern"
       and fk: "fk_check st sid"
    show "let old = conventions_t st ! i;
                 new_distinct = (if truthy sid \<and> sid \<noteq> c_session_id old
                                 then c_distinct_sessions old + 1 else c_distinct_sessions old)
             in record_convention now st category pattern example src scope sid =
                  Inr (st\<lparr>conventions_t := (conventions_t st)
                         [i := old\<lparr>c_confidence := min (fadd (c_confidence old) (b64 (2 / 10))) 1,
                                   c_distinct_sessions := new_distinct,
                                   c_session_id := sid, c_updated_at := now\<rparr>]\<rparr>,
                       c_id old) \<and>
                (new_distinct \<noteq> c_distinct_sessions old \<longrightarrow>
                   new_distinct = c_distinct_sessions old + 1 \<and> sid \<noteq> c_session_id old)"
      using record_convention_update [OF assms i fk, of now example src scope] k
      by (simp add: Let_def CORRECTION_DELTA_def CONFIDENCE_CAP_def float_one)
  qed
  have ins: "(\<forall>r\<in>set (conventions_t st). \<not> (c_category r = category \<and> c_pattern r = pattern)) \<longrightarrow>
          scope_check scope \<longrightarrow> fk_check st sid \<longrightarrow>
            (\<exists>row. record_convention now st category pattern example src scope sid =
                      Inr (st\<lparr>conventions_t := conventions_t st @ [row]\<rparr>, c_id row) \<and>
                    c_category row = category \<and> c_pattern row = pattern \<and>
                    c_confidence row = 1 / 2 \<and> c_distinct_sessions row = 1 \<and>
                    c_session_id row = sid \<and> c_id row \<notin> c_id ` set (conventions_t st))"
  proof (intro impI)
    assume a: "\<forall>r\<in>set (conventions_t st). \<not> (c_category r = category \<and> c_pattern r = pattern)"
       and b: "scope_check scope" and c: "fk_check st sid"
    show "\<exists>row. record_convention now st category pattern example src scope sid =
                      Inr (st\<lparr>conventions_t := conventions_t st @ [row]\<rparr>, c_id row) \<and>
                    c_category row = category \<and> c_pattern row = pattern \<and>
                    c_confidence row = 1 / 2 \<and> c_distinct_sessions row = 1 \<and>
                    c_session_id row = sid \<and> c_id row \<notin> c_id ` set (conventions_t st)"
      using record_convention_insert [OF a b c, of now example src]
        next_id_fresh [of "map c_id (conventions_t st)"] float_half
      by (intro exI [of _ "\<lparr>c_id = next_id (map c_id (conventions_t st)), c_category = category,
                    c_pattern = pattern, c_example = example, c_source = src,
                    c_scope = scope, c_created_at = now, c_updated_at = now,
                    c_confidence = CONFIDENCE_BASE, c_session_id = sid,
                    c_distinct_sessions = 1\<rparr>"]) (simp add: CONFIDENCE_BASE_def)
  qed
  show ?thesis using upd ins by blast
qed

theorem record_convention_upsert_witness:
  "(\<exists>row. record_convention ''2026-01-01T00:00:00Z'' conv_store_init ''naming'' ''snake_case''
             None ''correction'' ''personal'' (Some ''sess-001'') =
           Inr (conv_store_init\<lparr>conventions_t := [row]\<rparr>, c_id row) \<and>
         c_confidence row = 1 / 2 \<and> c_distinct_sessions row = 1) \<and>
   (\<exists>st'. record_convention ''2026-01-02T00:00:00Z'' conv_store_0 ''naming'' ''snake_case''
             None ''correction'' ''personal'' (Some ''sess-002'') = Inr (st', 1) \<and>
          map c_distinct_sessions (conventions_t st') = [2] \<and>
          map c_confidence (conventions_t st') = [b64 (7 / 10)] \<and>
          map c_session_id (conventions_t st') = [Some ''sess-002''])"
proof -
  have d0: "distinct (map c_id (conventions_t conv_store_init))"
       "distinct (map (\<lambda>r. (c_category r, c_pattern r)) (conventions_t conv_store_init))"
    by (simp_all add: conv_store_init_def init_schema_def)
  have d1: "distinct (map c_id (conventions_t conv_store_0))"
       "distinct (map (\<lambda>r. (c_category r, c_pattern r)) (conventions_t conv_store_0))"
    by (simp_all add: conv_store_0_def)
  have c0: "scope_check ''personal''" "fk_check conv_store_init (Some ''sess-001'')"
       "\<forall>r\<in>set (conventions_t conv_store_init).
          \<not> (c_category r = ''naming'' \<and> c_pattern r = ''snake_case'')"
    by (simp_all add: scope_check_def fk_check_def conv_store_init_def init_schema_def)
  note A = record_convention_upsert [OF d0, where category = "''naming''"
      and pattern = "''snake_case''" and sid = "Some ''sess-001''" and scope = "''personal''"
      and now = "''2026-01-01T00:00:00Z''" and example = None and src = "''correction''"]
  have 1: "\<exists>row. record_convention ''2026-01-01T00:00:00Z'' conv_store_init ''naming''
             ''snake_case'' None ''correction'' ''personal'' (Some ''sess-001'') =
           Inr (conv_store_init\<lparr>conventions_t := [row]\<rparr>, c_id row) \<and>
         c_confidence row = 1 / 2 \<and> c_distinct_sessions row = 1"
    using A c0 by (auto simp: conv_store_init_def init_schema_def)
  note B = record_convention_upsert [OF d1, where category = "''naming''"
      and pattern = "''snake_case''" and sid = "Some ''sess-002''" and scope = "''personal''"
      and now = "''2026-01-02T00:00:00Z''" and example = None and src = "''correction''"]
  have c1: "0 < length (conventions_t conv_store_0)"
       "c_category (conventions_t conv_store_0 ! 0) = ''naming'' \<and>
        c_pattern (conventions_t conv_store_0 ! 0) = ''snake_case''"
       "fk_check conv_store_0 (Some ''sess-002'')"
    by (simp_all add: conv_store_0_def conv_store_init_def fk_check_def)
  have f: "min (fadd (b64 (5 / 10)) (b64 (2 / 10))) 1 = b64 (7 / 10)"
    by code_simp
  from B c1 have
    "let old = conventions_t conv_store_0 ! 0;
         new_distinct = (if truthy (Some ''sess-002'') \<and> Some ''sess-002'' \<noteq> c_session_id old
                         then c_distinct_sessions old + 1 else c_distinct_sessions old)
     in record_convention ''2026-01-02T00:00:00Z'' conv_store_0 ''naming'' ''snake_case''
             None ''correction'' ''personal'' (Some ''sess-002'') =
          Inr (conv_store_0\<lparr>conventions_t := (conventions_t conv_store_0)
                 [0 := old\<lparr>c_confidence := min (fadd (c_confidence old) (b64 (2 / 10))) 1,
                           c_distinct_sessions := new_distinct,
                           c_session_id := Some ''sess-002'',
                           c_updated_at := ''2026-01-02T00:00:00Z''\<rparr>]\<rparr>,
               c_id old)"
    by (simp add: Let_def)
  then have 2: "\<exists>st'. record_convention ''2026-01-02T00:00:00Z'' conv_store_0 ''naming''
             ''snake_case'' None ''correction'' ''personal'' (Some ''sess-002'') = Inr (st', 1) \<and>
          map c_distinct_sessions (conventions_t st') = [2] \<and>
          map c_confidence (conventions_t st') = [b64 (7 / 10)] \<and>
          map c_session_id (conventions_t st') = [Some ''sess-002'']"
    using f by (simp add: Let_def conv_store_0_def truthy_def)
  show ?thesis using 1 2 by blast
qed

text \<open>
  C10.  In a store whose conventions have distinct ids and distinct keys, for the row at
  any position: \<open>record_convention\<close> on the row's key stores the supplied session id in
  the row whatever it is, \<open>None\<close> included, also when \<open>distinct_sessions\<close> is not
  incremented; \<open>reinforce_convention\<close> keeps the stored session id unless a non-empty,
  different one is supplied.  So when the row's session is \<open>a\<close>, an assertion without a
  session id followed by an assertion from \<open>a\<close> raises \<open>distinct_sessions\<close> by one, although
  \<open>a\<close> had contributed before.
\<close>

theorem session_id_overwritten:
  assumes ids: "distinct (map c_id (conventions_t st))"
      and keys: "distinct (map (\<lambda>r. (c_category r, c_pattern r)) (conventions_t st))"
      and i: "i < length (conventions_t st)"
  shows "(fk_check st sid \<longrightarrow>
            (\<exists>st'. record_convention now st (c_category (conventions_t st ! i))
                      (c_pattern (conventions_t st ! i)) example src scope sid =
                    Inr (st', c_id (conventions_t st ! i)) \<and>
                  c_session_id (conventions_t st' ! i) = sid \<and>
                  (\<not> (truthy sid \<and> sid \<noteq> c_session_id (conventions_t st ! i)) \<longrightarrow>
                     c_distinct_sessions (conventions_t st' ! i) =
                     c_distinct_sessions (conventions_t st ! i)))) \<and>
         (fk_check st (if truthy sid \<and> sid \<noteq> c_session_id (conventions_t st ! i)
                       then sid else c_session_id (conventions_t st ! i)) \<longrightarrow>
            (\<exists>st' c. reinforce_convention now st (c_id (conventions_t st ! i)) sid =
                      Inr (st', c) \<and>
                    c_session_id (conventions_t st' ! i) =
                      (if truthy sid \<and> sid \<noteq> c_session_id (conventions_t st ! i)
                       then sid else c_session_id (conventions_t st ! i)))) \<and>
         (c_session_id (conventions_t st ! i) = Some a \<and> a \<noteq> [] \<and> a \<in> set (sessions_t st) \<longrightarrow>
            (\<exists>st1 st2.
               record_convention now st (c_category (conventions_t st ! i))
                 (c_pattern (conventions_t st ! i)) example src scope None =
               Inr (st1, c_id (conventions_t st ! i)) \<and>
               c_session_id (conventions_t st1 ! i) = None \<and>
               c_distinct_sessions (conventions_t st1 ! i) =
                 c_distinct_sessions (conventions_t st ! i) \<and>
               record_convention now' st1 (c_category (conventions_t st ! i))
                 (c_pattern (conventions_t st ! i)) example' src' scope' (Some a) =
               Inr (st2, c_id (conventions_t st ! i)) \<and>
               c_session_id (conventions_t st2 ! i) = Some a \<and>
               c_distinct_sessions (conventions_t st2 ! i) =
                 c_distinct_sessions (conventions_t st ! i) + 1))"
proof -
  let ?xs = "conventions_t st"
  let ?row = "?xs ! i"
  have rec: "fk_check st sid \<longrightarrow>
            (\<exists>st'. record_convention now st (c_category ?row) (c_pattern ?row) example src scope sid =
                    Inr (st', c_id ?row) \<and>
                  c_session_id (conventions_t st' ! i) = sid \<and>
                  (\<not> (truthy sid \<and> sid \<noteq> c_session_id ?row) \<longrightarrow>
                     c_distinct_sessions (conventions_t st' ! i) = c_distinct_sessions ?row))"
  proof
    assume fk: "fk_check st sid"
    show "\<exists>st'. record_convention now st (c_category ?row) (c_pattern ?row) example src scope sid =
                    Inr (st', c_id ?row) \<and>
                  c_session_id (conventions_t st' ! i) = sid \<and>
                  (\<not> (truthy sid \<and> sid \<noteq> c_session_id ?row) \<longrightarrow>
                     c_distinct_sessions (conventions_t st' ! i) = c_distinct_sessions ?row)"
      using record_convention_update [OF ids keys i fk, of now example src scope] i
      by auto
  qed
  have reinf: "fk_check st (if truthy sid \<and> sid \<noteq> c_session_id ?row
                       then sid else c_session_id ?row) \<longrightarrow>
            (\<exists>st' c. reinforce_convention now st (c_id ?row) sid = Inr (st', c) \<and>
                    c_session_id (conventions_t st' ! i) =
                      (if truthy sid \<and> sid \<noteq> c_session_id ?row
                       then sid else c_session_id ?row))"
  proof
    assume fk: "fk_check st (if truthy sid \<and> sid \<noteq> c_session_id ?row
                       then sid else c_session_id ?row)"
    show "\<exists>st' c. reinforce_convention now st (c_id ?row) sid = Inr (st', c) \<and>
                    c_session_id (conventions_t st' ! i) =
                      (if truthy sid \<and> sid \<noteq> c_session_id ?row
                       then sid else c_session_id ?row)"
      using reinforce_convention_update [OF ids i fk, of now] i
      by auto
  qed
  have again: "c_session_id ?row = Some a \<and> a \<noteq> [] \<and> a \<in> set (sessions_t st) \<longrightarrow>
            (\<exists>st1 st2.
               record_convention now st (c_category ?row) (c_pattern ?row) example src scope None =
               Inr (st1, c_id ?row) \<and>
               c_session_id (conventions_t st1 ! i) = None \<and>
               c_distinct_sessions (conventions_t st1 ! i) = c_distinct_sessions ?row \<and>
               record_convention now' st1 (c_category ?row) (c_pattern ?row) example' src' scope'
                 (Some a) = Inr (st2, c_id ?row) \<and>
               c_session_id (conventions_t st2 ! i) = Some a \<and>
               c_distinct_sessions (conventions_t st2 ! i) = c_distinct_sessions ?row + 1)"
  proof
    assume h: "c_session_id ?row = Some a \<and> a \<noteq> [] \<and> a \<in> set (sessions_t st)"
    define row1 where "row1 = ?row\<lparr>c_confidence :=
                      min (fadd (c_confidence ?row) CORRECTION_DELTA) CONFIDENCE_CAP,
                    c_distinct_sessions := c_distinct_sessions ?row,
                    c_session_id := None, c_updated_at := now\<rparr>"
    define st1 where "st1 = st\<lparr>conventions_t := ?xs[i := row1]\<rparr>"
    have fk0: "fk_check st None" by (simp add: fk_check_def)
    have s1: "record_convention now st (c_category ?row) (c_pattern ?row) example src scope None =
               Inr (st1, c_id ?row)"
      using record_convention_update [OF ids keys i fk0, of now example src scope]
      by (simp add: st1_def row1_def truthy_def)
    have xs1: "conventions_t st1 = ?xs[i := row1]" by (simp add: st1_def)
    have at1: "conventions_t st1 ! i = row1" using i by (simp add: xs1)
    have i1: "i < length (conventions_t st1)" using i by (simp add: xs1)
    have ids1: "distinct (map c_id (conventions_t st1))"
      using ids list_update_same_key [OF i, of c_id row1] by (simp add: xs1 row1_def)
    have keys1: "distinct (map (\<lambda>r. (c_category r, c_pattern r)) (conventions_t st1))"
      using keys list_update_same_key [OF i, of "\<lambda>r. (c_category r, c_pattern r)" row1]
      by (simp add: xs1 row1_def)
    have fk1: "fk_check st1 (Some a)" using h by (simp add: fk_check_def st1_def)
    have s2: "\<exists>st2. record_convention now' st1 (c_category ?row) (c_pattern ?row) example' src'
                 scope' (Some a) = Inr (st2, c_id ?row) \<and>
               c_session_id (conventions_t st2 ! i) = Some a \<and>
               c_distinct_sessions (conventions_t st2 ! i) = c_distinct_sessions ?row + 1"
      using record_convention_update [OF ids1 keys1 i1 fk1, of now' example' src' scope'] h i
      by (simp add: at1 xs1 row1_def truthy_def)
    show "\<exists>st1 st2.
               record_convention now st (c_category ?row) (c_pattern ?row) example src scope None =
               Inr (st1, c_id ?row) \<and>
               c_session_id (conventions_t st1 ! i) = None \<and>
               c_distinct_sessions (conventions_t st1 ! i) = c_distinct_sessions ?row \<and>
               record_convention now' st1 (c_category ?row) (c_pattern ?row) example' src' scope'
                 (Some a) = Inr (st2, c_id ?row) \<and>
               c_session_id (conventions_t st2 ! i) = Some a \<and>
               c_distinct_sessions (conventions_t st2 ! i) = c_distinct_sessions ?row + 1"
      using s1 s2 at1 by (auto simp: row1_def)
  qed
  show ?thesis using rec reinf again by blast
qed

theorem session_id_overwritten_witness:
  "record_convention ''2026-01-02T00:00:00Z'' conv_store_0 ''naming'' ''snake_case'' None
     ''correction'' ''personal'' None = Inr (conv_store_1, 1) \<and>
   record_convention ''2026-01-03T00:00:00Z'' conv_store_1 ''naming'' ''snake_case'' None
     ''correction'' ''personal'' (Some ''sess-001'') = Inr (conv_store_2, 1) \<and>
   map c_session_id (conventions_t conv_store_0) = [Some ''sess-001''] \<and>
   map c_session_id (conventions_t conv_store_1) = [None] \<and>
   map c_distinct_sessions (conventions_t conv_store_1) = [1] \<and>
   map c_distinct_sessions (conventions_t conv_store_2) = [2] \<and>
   (\<exists>st' c. reinforce_convention ''2026-01-02T00:00:00Z'' conv_store_0 1 None = Inr (st', c) \<and>
            map c_session_id (conventions_t st') = [Some ''sess-001''])"
proof -
  have d: "distinct (map c_id (conventions_t conv_store_0))"
       "distinct (map (\<lambda>r. (c_category r, c_pattern r)) (conventions_t conv_store_0))"
       "0 < length (conventions_t conv_store_0)"
    by (simp_all add: conv_store_0_def)
  note T = session_id_overwritten [OF d, where sid = None and a = "''sess-001''"
      and now = "''2026-01-02T00:00:00Z''"]
  have row: "c_id (conventions_t conv_store_0 ! 0) = 1"
      "c_session_id (conventions_t conv_store_0 ! 0) = Some ''sess-001''"
      "''sess-001'' \<in> set (sessions_t conv_store_0)"
    by (simp_all add: conv_store_0_def conv_store_init_def)
  have fk: "fk_check conv_store_0 (if truthy None \<and> None \<noteq> c_session_id (conventions_t conv_store_0 ! 0)
                       then None else c_session_id (conventions_t conv_store_0 ! 0))"
    by (simp add: truthy_def fk_check_def conv_store_0_def conv_store_init_def)
  from T fk obtain st' c where
    "reinforce_convention ''2026-01-02T00:00:00Z'' conv_store_0 (c_id (conventions_t conv_store_0 ! 0)) None
       = Inr (st', c)"
    "c_session_id (conventions_t st' ! 0) =
                      (if truthy None \<and> None \<noteq> c_session_id (conventions_t conv_store_0 ! 0)
                       then None else c_session_id (conventions_t conv_store_0 ! 0))"
    by blast
  then have r: "\<exists>st' c. reinforce_convention ''2026-01-02T00:00:00Z'' conv_store_0 1 None = Inr (st', c) \<and>
            map c_session_id (conventions_t st') = [Some ''sess-001'']"
    by (auto simp: row truthy_def reinforce_convention_def conv_store_0_def Let_def
        split: if_splits)
  show ?thesis
    using conv_ex1 conv_ex2 r
    by (simp add: conv_store_0_def conv_store_1_def conv_store_2_def)
qed

text \<open>
  C5.  For a convention id that is not in the store, \<open>reinforce_convention\<close> raises
  \<open>ValueError\<close>; \<open>contradict_convention\<close> returns 0.3 as for an existing id, with the store
  unchanged, and signals nothing.
\<close>

theorem missing_convention_id:
  assumes "convention_id \<notin> c_id ` set (conventions_t st)"
  shows "reinforce_convention now st convention_id sid = Inl ValueError \<and>
         contradict_convention now st convention_id = (st, b64 (3 / 10))"
proof -
  have "find (\<lambda>r. c_id r = convention_id) (conventions_t st) = None"
    using assms by (auto simp: find_None_iff)
  then have r: "reinforce_convention now st convention_id sid = Inl ValueError"
    by (simp add: reinforce_convention_def)
  have "map (\<lambda>r. if c_id r = convention_id
                 then r\<lparr>c_confidence := CONTRADICTION_RESET, c_updated_at := now\<rparr>
                 else r) (conventions_t st) = conventions_t st"
    using assms by (intro map_idI) auto
  then have c: "contradict_convention now st convention_id = (st, b64 (3 / 10))"
    by (simp add: contradict_convention_def CONTRADICTION_RESET_def)
  show ?thesis using r c by simp
qed

theorem missing_convention_id_witness:
  "reinforce_convention ''2026-01-02T00:00:00Z'' conv_store_0 999 None = Inl ValueError \<and>
   contradict_convention ''2026-01-02T00:00:00Z'' conv_store_0 999 = (conv_store_0, b64 (3 / 10))"
proof -
  have "(999::int) \<notin> c_id ` set (conventions_t conv_store_0)"
    by (simp add: conv_store_0_def)
  then show ?thesis by (rule missing_convention_id)
qed

section \<open>Properties of the fork export\<close>




















end
